theory Spec2Isabelle
  imports Complex_Main
begin

section \<open>The bootstrap loss layer of caffe (bootstrap\_loss\_layer.cpp)\<close>

text \<open>
  The layer is a class template over the element type \<open>Dtype\<close>, instantiated for
  \<open>float\<close> and \<open>double\<close>. Finite element values are modelled by \<open>real\<close>: rounding and
  overflow of the arithmetic are not part of the model. What is part of it is the one
  place where the code leaves the finite numbers on finite operands, the division by a
  zero divisor, whose IEEE result is a NaN or an infinity. Such a result is the value
  \<open>NonFinite\<close>. What the layer then does with it, subtracting a finite value from it or
  multiplying it with another value, gives a NaN or an infinity again, hence \<open>NonFinite\<close>.
\<close>

subsection \<open>Values and errors\<close>

datatype dval = Fin real | NonFinite

text \<open>\<open>a / b\<close> on finite operands.\<close>

definition dt_div :: "real \<Rightarrow> real \<Rightarrow> dval" where
  "dt_div a b = (if b = 0 then NonFinite else Fin (a / b))"

text \<open>\<open>x *= alpha\<close>, as \<open>caffe_scal\<close> does on each element.\<close>

fun dt_mul :: "dval \<Rightarrow> dval \<Rightarrow> dval" where
  "dt_mul (Fin a) (Fin x) = Fin (a * x)"
| "dt_mul _ _ = NonFinite"

text \<open>\<open>x -= c\<close> with a finite \<open>c\<close>.\<close>

fun dt_sub :: "dval \<Rightarrow> real \<Rightarrow> dval" where
  "dt_sub (Fin x) c = Fin (x - c)"
| "dt_sub NonFinite c = NonFinite"

text \<open>
  The ways a call can end without a result: the \<open>CHECK_EQ\<close> of \<open>Reshape\<close>, the
  \<open>LOG(FATAL)\<close> of \<open>Backward_cpu\<close>, and the integer division
  \<open>prob_.count() / outer_num_\<close> with \<open>outer_num_ = 0\<close> (undefined behaviour in C++,
  a trap on the usual targets).
\<close>

datatype error = ShapeMismatch | InvalidGradientRequest | IntDivByZero

subsection \<open>The layer and its blobs\<close>

text \<open>
  The members of \<open>BootstrapLossLayer\<close> that the loss and the gradient read. They are set by
  \<open>LayerSetUp\<close> (the configuration) and by \<open>Reshape\<close> (\<open>outer_num_\<close>, \<open>inner_num_\<close>).
\<close>

record layer =
  has_ignore_label :: bool
  ignore_label :: int
  normalize :: bool
  is_hard_mode :: bool
  beta :: real
  outer_num :: nat
  inner_num :: nat

text \<open>
  What a call reads from the blobs: \<open>channels\<close> is \<open>bottom[0]->channels()\<close>, \<open>shape_axis\<close> is
  \<open>bottom[0]->shape(softmax_axis_)\<close>, \<open>prob_data\<close> is the buffer of \<open>prob_\<close> (so
  \<open>prob_.count()\<close> is its length) as the softmax layer left it, \<open>p_label\<close> the buffer of
  \<open>p_label_\<close> as the argmax layer left it, and \<open>n_label\<close> the buffer of \<open>bottom[1]\<close>.
  Labels are stored as elements of type \<open>Dtype\<close>.
\<close>

record blobs =
  channels :: nat
  shape_axis :: nat
  prob_data :: "real list"
  p_label :: "real list"
  n_label :: "real list"

text \<open>\<open>static_cast<int>\<close> of a \<open>Dtype\<close>: truncation towards zero.\<close>

definition static_cast_int :: "real \<Rightarrow> int" where
  "static_cast_int x = (if 0 \<le> x then \<lfloor>x\<rfloor> else \<lceil>x\<rceil>)"

text \<open>\<open>FLT_MIN\<close> of \<open><cfloat>\<close>, the least positive normalised \<open>float\<close>.\<close>

definition FLT_MIN :: real where
  "FLT_MIN = 1 / 2 ^ 126"

subsection \<open>Reshape\<close>

text \<open>
  \<open>Reshape\<close> stores \<open>outer_num_ = bottom[0]->count(0, softmax_axis_)\<close> and
  \<open>inner_num_ = bottom[0]->count(softmax_axis_ + 1)\<close> and checks their product against
  \<open>bottom[1]->count()\<close>. The two counts and the label count are results of \<open>Blob\<close> methods
  and are taken as arguments. The product of the two counts is at most the count of
  \<open>bottom[0]\<close>, an \<open>int\<close>, so it does not wrap. The calls before the check, to the base
  class and to the softmax and argmax layers, and the reshaping of \<open>top[1]\<close> after it are
  outside this file and change none of the members modelled here.
\<close>

definition Reshape :: "layer \<Rightarrow> nat \<Rightarrow> nat \<Rightarrow> nat \<Rightarrow> error + layer" where
  "Reshape L count_outer count_inner label_count =
     (let L' = L\<lparr>outer_num := count_outer, inner_num := count_inner\<rparr>
      in if outer_num L' * inner_num L' = label_count then Inr L' else Inl ShapeMismatch)"

subsection \<open>Forward\_cpu\<close>

text \<open>The weight \<open>c\<close> of lines 88 to 92; a comparison converts to 1 or 0.\<close>

definition forward_c :: "layer \<Rightarrow> blobs \<Rightarrow> nat \<Rightarrow> int \<Rightarrow> int \<Rightarrow> nat \<Rightarrow> nat \<Rightarrow> nat \<Rightarrow> real" where
  "forward_c L B dim' n_label_value p_label_value i j k =
     (if is_hard_mode L
      then beta L * of_bool (int k = n_label_value) +
           (1 - beta L) * of_bool (int k = p_label_value)
      else beta L * of_bool (int k = n_label_value) +
           (1 - beta L) * prob_data B ! (i * dim' + k * inner_num L + j))"

text \<open>The body of the loop over \<open>k\<close>.\<close>

definition forward_k :: "layer \<Rightarrow> blobs \<Rightarrow> nat \<Rightarrow> int \<Rightarrow> int \<Rightarrow> nat \<Rightarrow> nat \<Rightarrow> nat \<Rightarrow> real \<Rightarrow> real" where
  "forward_k L B dim' n_label_value p_label_value i j k loss =
     loss - forward_c L B dim' n_label_value p_label_value i j k *
            ln (max (prob_data B ! (i * dim' + k * inner_num L + j)) FLT_MIN)"

text \<open>
  The body of the loop over \<open>j\<close>, on the pair of \<open>loss\<close> and \<open>count\<close>. The two \<open>DCHECK\<close>s on
  the noisy label expand to nothing unless the build is a debug build; a label outside
  the classes then simply equals no \<open>k\<close>.
\<close>

definition forward_j :: "layer \<Rightarrow> blobs \<Rightarrow> nat \<Rightarrow> nat \<Rightarrow> nat \<Rightarrow> real \<times> nat \<Rightarrow> real \<times> nat" where
  "forward_j L B dim' i j = (\<lambda>(loss, count).
     let n_label_value = static_cast_int (n_label B ! (i * inner_num L + j));
         p_label_value = static_cast_int (p_label B ! (i * inner_num L + j))
     in if has_ignore_label L \<and> n_label_value = ignore_label L then (loss, count)
        else (fold (forward_k L B dim' n_label_value p_label_value i j) [0..<channels B] loss,
              count + 1))"

definition forward_i :: "layer \<Rightarrow> blobs \<Rightarrow> nat \<Rightarrow> nat \<Rightarrow> real \<times> nat \<Rightarrow> real \<times> nat" where
  "forward_i L B dim' i = fold (forward_j L B dim' i) [0..<inner_num L]"

definition forward_loops :: "layer \<Rightarrow> blobs \<Rightarrow> nat \<Rightarrow> real \<times> nat" where
  "forward_loops L B dim' = fold (forward_i L B dim') [0..<outer_num L] (0, 0)"

text \<open>
  The result is \<open>top[0]\<close>'s single element and, when there are two top blobs, the data
  that \<open>top[1]\<close> shares with \<open>prob_\<close>.
\<close>

definition Forward_cpu :: "layer \<Rightarrow> blobs \<Rightarrow> nat \<Rightarrow> error + dval \<times> real list option" where
  "Forward_cpu L B top_size =
     (if outer_num L = 0 then Inl IntDivByZero
      else let dim' = length (prob_data B) div outer_num L;
               (loss, count) = forward_loops L B dim';
               top0 = (if normalize L then dt_div loss (real count)
                       else dt_div loss (real (outer_num L)))
           in Inr (top0, if top_size = 2 then Some (prob_data B) else None))"

subsection \<open>Backward\_cpu\<close>

text \<open>\<open>caffe_copy(n, X, Y)\<close> and \<open>caffe_scal(n, alpha, X)\<close> on the first \<open>n\<close> elements.\<close>

definition caffe_copy :: "nat \<Rightarrow> real list \<Rightarrow> dval list \<Rightarrow> dval list" where
  "caffe_copy n X Y = map Fin (take n X) @ drop n Y"

definition caffe_scal :: "nat \<Rightarrow> dval \<Rightarrow> dval list \<Rightarrow> dval list" where
  "caffe_scal n alpha X = map (dt_mul alpha) (take n X) @ drop n X"

text \<open>The weight \<open>c\<close> of lines 134 to 138.\<close>

definition backward_c :: "layer \<Rightarrow> blobs \<Rightarrow> nat \<Rightarrow> int \<Rightarrow> int \<Rightarrow> nat \<Rightarrow> nat \<Rightarrow> nat \<Rightarrow> real" where
  "backward_c L B dim' n_label_value p_label_value i j k =
     (if is_hard_mode L
      then beta L * of_bool (int k = n_label_value) +
           (1 - beta L) * of_bool (int k = p_label_value)
      else beta L * of_bool (int k = n_label_value) +
           (1 - beta L) * prob_data B ! (i * dim' + k * inner_num L + j))"

text \<open>The bodies of the loop over \<open>c\<close> (an ignored position) and of the loop over \<open>k\<close>.\<close>

definition backward_zero :: "layer \<Rightarrow> nat \<Rightarrow> nat \<Rightarrow> nat \<Rightarrow> nat \<Rightarrow> dval list \<Rightarrow> dval list" where
  "backward_zero L dim' i j c bottom_diff =
     bottom_diff[i * dim' + c * inner_num L + j := Fin 0]"

definition backward_k ::
  "layer \<Rightarrow> blobs \<Rightarrow> nat \<Rightarrow> int \<Rightarrow> int \<Rightarrow> nat \<Rightarrow> nat \<Rightarrow> nat \<Rightarrow> dval list \<Rightarrow> dval list" where
  "backward_k L B dim' n_label_value p_label_value i j k bottom_diff =
     bottom_diff[i * dim' + k * inner_num L + j :=
       dt_sub (bottom_diff ! (i * dim' + k * inner_num L + j))
              (backward_c L B dim' n_label_value p_label_value i j k)]"

definition backward_j ::
  "layer \<Rightarrow> blobs \<Rightarrow> nat \<Rightarrow> nat \<Rightarrow> nat \<Rightarrow> dval list \<times> nat \<Rightarrow> dval list \<times> nat" where
  "backward_j L B dim' i j = (\<lambda>(bottom_diff, count).
     let n_label_value = static_cast_int (n_label B ! (i * inner_num L + j));
         p_label_value = static_cast_int (p_label B ! (i * inner_num L + j))
     in if has_ignore_label L \<and> n_label_value = ignore_label L
        then (fold (backward_zero L dim' i j) [0..<shape_axis B] bottom_diff, count)
        else (fold (backward_k L B dim' n_label_value p_label_value i j) [0..<channels B]
                bottom_diff,
              count + 1))"

definition backward_i ::
  "layer \<Rightarrow> blobs \<Rightarrow> nat \<Rightarrow> nat \<Rightarrow> dval list \<times> nat \<Rightarrow> dval list \<times> nat" where
  "backward_i L B dim' i = fold (backward_j L B dim' i) [0..<inner_num L]"

definition backward_loops :: "layer \<Rightarrow> blobs \<Rightarrow> nat \<Rightarrow> dval list \<Rightarrow> dval list \<times> nat" where
  "backward_loops L B dim' bottom_diff =
     fold (backward_i L B dim') [0..<outer_num L] (bottom_diff, 0)"

text \<open>
  \<open>loss_weight\<close> is \<open>top[0]->cpu_diff()[0]\<close>; \<open>bottom_diff\<close> is the gradient buffer of
  \<open>bottom[0]\<close> before the call, and the result is that buffer after it.
\<close>

definition Backward_cpu ::
  "layer \<Rightarrow> blobs \<Rightarrow> real \<Rightarrow> bool list \<Rightarrow> dval list \<Rightarrow> error + dval list" where
  "Backward_cpu L B loss_weight propagate_down bottom_diff =
     (if propagate_down ! 1 then Inl InvalidGradientRequest
      else if propagate_down ! 0 then
        (let d0 = caffe_copy (length (prob_data B)) (prob_data B) bottom_diff
         in if outer_num L = 0 then Inl IntDivByZero
            else let dim' = length (prob_data B) div outer_num L;
                     (d1, count) = backward_loops L B dim' d0
                 in if normalize L
                    then Inr (caffe_scal (length (prob_data B))
                                (dt_div loss_weight (real count)) d1)
                    else Inr (caffe_scal (length (prob_data B))
                                (dt_div loss_weight (real (outer_num L))) d1))
      else Inr bottom_diff)"

section \<open>The quantities the specification speaks of\<close>

text \<open>
  A position is a pair \<open>(i, j)\<close> with \<open>i < outer_num\<close> and \<open>j < inner_num\<close>; its noisy and
  predicted labels are the casts of the two label buffers at \<open>i * inner_num + j\<close>, and it
  is ignored when the layer has an ignore label and the noisy label equals it.
\<close>

definition n_label_at :: "layer \<Rightarrow> blobs \<Rightarrow> nat \<Rightarrow> nat \<Rightarrow> int" where
  "n_label_at L B i j = static_cast_int (n_label B ! (i * inner_num L + j))"

definition p_label_at :: "layer \<Rightarrow> blobs \<Rightarrow> nat \<Rightarrow> nat \<Rightarrow> int" where
  "p_label_at L B i j = static_cast_int (p_label B ! (i * inner_num L + j))"

definition ignored_at :: "layer \<Rightarrow> blobs \<Rightarrow> nat \<Rightarrow> nat \<Rightarrow> bool" where
  "ignored_at L B i j \<longleftrightarrow> has_ignore_label L \<and> n_label_at L B i j = ignore_label L"

text \<open>
  The element \<open>(i, k, j)\<close> of a tensor of \<open>outer_num \<times> num_classes \<times> inner_num\<close> elements
  lies at \<open>i * dim + k * inner_num + j\<close> in the flat buffer, with
  \<open>dim = num_classes * inner_num\<close>.
\<close>

definition index3 :: "layer \<Rightarrow> blobs \<Rightarrow> nat \<Rightarrow> nat \<Rightarrow> nat \<Rightarrow> nat" where
  "index3 L B i k j = i * (shape_axis B * inner_num L) + k * inner_num L + j"

definition prob_at :: "layer \<Rightarrow> blobs \<Rightarrow> nat \<Rightarrow> nat \<Rightarrow> nat \<Rightarrow> real" where
  "prob_at L B i k j = prob_data B ! index3 L B i k j"

text \<open>
  The mixed target weight of the Bootstrap Target Mixer, as the specification writes it:
  \<open>beta * [k == n] + (1 - beta) * [k == p]\<close> in hard mode and
  \<open>beta * [k == n] + (1 - beta) * prob[i,k,j]\<close> in soft mode.
\<close>

definition mixed_weight :: "layer \<Rightarrow> blobs \<Rightarrow> nat \<Rightarrow> nat \<Rightarrow> nat \<Rightarrow> real" where
  "mixed_weight L B i j k =
     (if is_hard_mode L
      then beta L * of_bool (int k = n_label_at L B i j) +
           (1 - beta L) * of_bool (int k = p_label_at L B i j)
      else beta L * of_bool (int k = n_label_at L B i j) +
           (1 - beta L) * prob_at L B i k j)"

text \<open>
  The number of positions that are not ignored, the total of
  \<open>- w(k) * log (max (prob[i,k,j]) eps)\<close> over those positions and all classes (the
  classes are the indices below the extent of the softmax axis), and the divisor of the
  loss and of the gradient.
\<close>

definition valid_count :: "layer \<Rightarrow> blobs \<Rightarrow> nat" where
  "valid_count L B =
     (\<Sum>i<outer_num L. \<Sum>j<inner_num L. if ignored_at L B i j then 0 else 1)"

definition loss_total :: "real \<Rightarrow> layer \<Rightarrow> blobs \<Rightarrow> real" where
  "loss_total eps L B =
     (\<Sum>i<outer_num L. \<Sum>j<inner_num L. if ignored_at L B i j then 0
        else \<Sum>k<shape_axis B. - mixed_weight L B i j k * ln (max (prob_at L B i k j) eps))"

definition divisor :: "layer \<Rightarrow> blobs \<Rightarrow> real" where
  "divisor L B = (if normalize L then real (valid_count L B) else real (outer_num L))"

text \<open>
  What one position contributes to the loss in \<open>Forward_cpu\<close>, and what \<open>Backward_cpu\<close>
  leaves in a cell of the gradient buffer before it scales the buffer.
\<close>

definition fw_pos :: "layer \<Rightarrow> blobs \<Rightarrow> nat \<Rightarrow> nat \<Rightarrow> nat \<Rightarrow> real" where
  "fw_pos L B d i j = (\<Sum>k<channels B.
      forward_c L B d (static_cast_int (n_label B ! (i * inner_num L + j)))
        (static_cast_int (p_label B ! (i * inner_num L + j))) i j k *
      ln (max (prob_data B ! (i * d + k * inner_num L + j)) FLT_MIN))"

definition grad_cell :: "layer \<Rightarrow> blobs \<Rightarrow> nat \<Rightarrow> nat \<Rightarrow> nat \<Rightarrow> dval \<Rightarrow> dval" where
  "grad_cell L B i j k x =
     (if ignored_at L B i j then Fin 0 else dt_sub x (mixed_weight L B i j k))"

text \<open>
  The shapes that \<open>Reshape\<close> leaves. It sets \<open>outer_num_\<close> and \<open>inner_num_\<close> to the products
  of the dimensions before and after the softmax axis, so that \<open>prob_\<close> has
  \<open>outer_num * shape_axis * inner_num\<close> elements, and it checks the label count. With
  \<open>outer_num_ = 0\<close> the division that computes \<open>dim\<close> is undefined.

  Nothing relates \<open>bottom[0]->channels()\<close>, the extent of axis 1, to the extent of the softmax
  axis, which the configuration chooses. The loops over \<open>k\<close> in \<open>Forward_cpu\<close> and
  \<open>Backward_cpu\<close> run to the first and the zeroing loop of \<open>Backward_cpu\<close> to the second; the
  two agree when the softmax axis is 1, the default. Where a property needs them to
  agree, \<open>channels B = shape_axis B\<close> is a hypothesis of its own.
\<close>

definition wf :: "layer \<Rightarrow> blobs \<Rightarrow> bool" where
  "wf L B \<longleftrightarrow> 0 < outer_num L \<and>
     length (prob_data B) = outer_num L * shape_axis B * inner_num L \<and>
     length (p_label B) = outer_num L * inner_num L \<and>
     length (n_label B) = outer_num L * inner_num L"

subsection \<open>Example inputs\<close>

text \<open>
  Two batch items of two classes and one inner position. The first position has noisy
  label 1 and predicted label 0, the second has the ignore label 255.
\<close>

definition L_ex :: layer where
  "L_ex = \<lparr>has_ignore_label = True, ignore_label = 255, normalize = True, is_hard_mode = False,
           beta = 1 / 2, outer_num = 2, inner_num = 1\<rparr>"

definition B_ex :: blobs where
  "B_ex = \<lparr>channels = 2, shape_axis = 2, prob_data = [3 / 4, 1 / 4, 1 / 2, 1 / 2],
           p_label = [0, 0], n_label = [1, 255]\<rparr>"

text \<open>
  A second example: one position of two classes whose first probability is zero, with
  noisy label 0 and predicted label 1, in hard mode with \<open>beta = 1\<close>.
\<close>

definition L_dbl :: layer where
  "L_dbl = \<lparr>has_ignore_label = False, ignore_label = 0, normalize = False, is_hard_mode = True,
            beta = 1, outer_num = 1, inner_num = 1\<rparr>"

definition B_dbl :: blobs where
  "B_dbl = \<lparr>channels = 2, shape_axis = 2, prob_data = [0, 1], p_label = [1], n_label = [0]\<rparr>"

text \<open>
  A third example: the only position carries the ignore label and \<open>normalize\<close> is set.
\<close>

definition L_deg :: layer where
  "L_deg = \<lparr>has_ignore_label = True, ignore_label = 255, normalize = True, is_hard_mode = True,
            beta = 1, outer_num = 1, inner_num = 1\<rparr>"

definition B_deg :: blobs where
  "B_deg = \<lparr>channels = 2, shape_axis = 2, prob_data = [1 / 2, 1 / 2], p_label = [0],
            n_label = [255]\<rparr>"

text \<open>
  The first example with other probabilities and another predicted label at its ignored
  position.
\<close>

definition B_ex' :: blobs where
  "B_ex' = \<lparr>channels = 2, shape_axis = 2, prob_data = [3 / 4, 1 / 4, 1 / 10, 9 / 10],
            p_label = [0, 1], n_label = [1, 255]\<rparr>"

text \<open>
  A fourth example: a blob of shape \<open>(1, 1, 2)\<close> with the softmax axis 2, so that there is
  one position of two classes while \<open>bottom[0]->channels()\<close> is 1. The noisy and the
  predicted label are 1, the mode is hard and \<open>beta = 1\<close>.
\<close>

definition L_ax :: layer where
  "L_ax = \<lparr>has_ignore_label = False, ignore_label = 0, normalize = False, is_hard_mode = True,
           beta = 1, outer_num = 1, inner_num = 1\<rparr>"

definition B_ax :: blobs where
  "B_ax = \<lparr>channels = 1, shape_axis = 2, prob_data = [1 / 4, 3 / 4], p_label = [1],
           n_label = [1]\<rparr>"

subsection \<open>Element types\<close>

text \<open>
  The two instantiations of the template and, for each, the clamp that the specification
  names, the smallest positive value of the element type, read as the least positive
  normalised one: \<open>FLT_MIN\<close> and \<open>DBL_MIN\<close> of \<open><cfloat>\<close>. The code itself writes
  \<open>Dtype(FLT_MIN)\<close> in both instantiations.
\<close>

datatype elem_type = Float | Double

definition smallest_positive_normal :: "elem_type \<Rightarrow> real" where
  "smallest_positive_normal t = (case t of Float \<Rightarrow> 1 / 2 ^ 126 | Double \<Rightarrow> 1 / 2 ^ 1022)"

subsection \<open>Inputs that differ at ignored positions only\<close>

text \<open>
  \<open>B'\<close> has the shapes and the noisy labels of \<open>B\<close>, and at every position that is not
  ignored it has the predicted label and the probabilities of \<open>B\<close>. At the ignored
  positions its probabilities and predicted labels are arbitrary.
\<close>

definition agree_off_ignored :: "layer \<Rightarrow> blobs \<Rightarrow> blobs \<Rightarrow> bool" where
  "agree_off_ignored L B B' \<longleftrightarrow>
     channels B' = channels B \<and> shape_axis B' = shape_axis B \<and> n_label B' = n_label B \<and>
     length (prob_data B') = length (prob_data B) \<and> length (p_label B') = length (p_label B) \<and>
     (\<forall>i<outer_num L. \<forall>j<inner_num L. \<not> ignored_at L B i j \<longrightarrow>
        p_label_at L B' i j = p_label_at L B i j \<and>
        (\<forall>k<shape_axis B. prob_at L B' i k j = prob_at L B i k j))"

section \<open>Properties of the loops\<close>

subsection \<open>The forward loops\<close>

lemma wf_dim: "wf L B \<Longrightarrow> length (prob_data B) div outer_num L = shape_axis B * inner_num L"
  by (simp add: wf_def mult.assoc)

lemma fold_forward_k:
  "fold (forward_k L B d nv pv i j) [0..<m] loss =
     loss - (\<Sum>k<m. forward_c L B d nv pv i j k *
                      ln (max (prob_data B ! (i * d + k * inner_num L + j)) FLT_MIN))"
  by (induction m) (simp_all add: forward_k_def)

lemma forward_j_eq:
  "forward_j L B d i j (loss, count) =
     (if ignored_at L B i j then (loss, count) else (loss - fw_pos L B d i j, Suc count))"
  by (simp add: forward_j_def ignored_at_def n_label_at_def fold_forward_k fw_pos_def Let_def)

lemma fold_forward_j:
  "fold (forward_j L B d i) [0..<m] (loss, count) =
     (loss - (\<Sum>j<m. if ignored_at L B i j then 0 else fw_pos L B d i j),
      count + (\<Sum>j<m. if ignored_at L B i j then 0 else 1))"
  by (induction m) (simp_all add: forward_j_eq)

lemma fold_forward_i:
  "fold (forward_i L B d) [0..<m] (loss, count) =
     (loss - (\<Sum>i<m. \<Sum>j<inner_num L. if ignored_at L B i j then 0 else fw_pos L B d i j),
      count + (\<Sum>i<m. \<Sum>j<inner_num L. if ignored_at L B i j then 0 else 1))"
  by (induction m) (simp_all add: forward_i_def fold_forward_j)

lemma forward_c_wf:
  "forward_c L B (shape_axis B * inner_num L) (n_label_at L B i j) (p_label_at L B i j) i j k = mixed_weight L B i j k"
  by (simp add: forward_c_def mixed_weight_def prob_at_def index3_def)

lemma fw_pos_wf:
  "fw_pos L B (shape_axis B * inner_num L) i j =
     (\<Sum>k<channels B. mixed_weight L B i j k * ln (max (prob_at L B i k j) FLT_MIN))"
  by (simp add: fw_pos_def forward_c_wf [unfolded n_label_at_def p_label_at_def] prob_at_def index3_def)

lemma forward_loops_eq:
  assumes "channels B = shape_axis B"
  shows "forward_loops L B (shape_axis B * inner_num L) =
           (loss_total FLT_MIN L B, valid_count L B)"
  by (simp add: forward_loops_def fold_forward_i fw_pos_wf loss_total_def valid_count_def
      assms sum_negf [symmetric] if_distrib [of uminus] cong: if_cong)

subsection \<open>Indices\<close>

lemma index3_lt:
  assumes "i < outer_num L" "k < shape_axis B" "j < inner_num L"
  shows "index3 L B i k j < outer_num L * shape_axis B * inner_num L"
proof -
  let ?C = "shape_axis B" and ?I = "inner_num L" and ?O = "outer_num L"
  have "k * ?I + j < ?C * ?I"
  proof -
    have "k * ?I + j < k * ?I + ?I" using assms by simp
    also have "\<dots> = Suc k * ?I" by simp
    also have "\<dots> \<le> ?C * ?I" using assms by (intro mult_le_mono1) simp
    finally show ?thesis .
  qed
  then have "i * (?C * ?I) + (k * ?I + j) < i * (?C * ?I) + ?C * ?I" by simp
  also have "\<dots> = Suc i * (?C * ?I)" by simp
  also have "\<dots> \<le> ?O * (?C * ?I)" using assms by (intro mult_le_mono1) simp
  finally show ?thesis by (simp add: index3_def mult.assoc add.assoc)
qed

lemma index3_eq_iff:
  assumes "k < shape_axis B" "j < inner_num L" "k' < shape_axis B" "j' < inner_num L"
  shows "index3 L B i k j = index3 L B i' k' j' \<longleftrightarrow> i = i' \<and> k = k' \<and> j = j'"
proof
  let ?C = "shape_axis B" and ?I = "inner_num L"
  assume eq: "index3 L B i k j = index3 L B i' k' j'"
  have r: "index3 L B a b c = (a * ?C + b) * ?I + c" for a b c
    by (simp add: index3_def algebra_simps)
  from eq have e: "(i * ?C + k) * ?I + j = (i' * ?C + k') * ?I + j'" by (simp add: r)
  have "((i * ?C + k) * ?I + j) mod ?I = j" using assms by simp
  moreover have "((i' * ?C + k') * ?I + j') mod ?I = j'" using assms by simp
  ultimately have j: "j = j'" using e by simp
  have "((i * ?C + k) * ?I + j) div ?I = i * ?C + k" using assms by simp
  moreover have "((i' * ?C + k') * ?I + j') div ?I = i' * ?C + k'" using assms by simp
  ultimately have e2: "i * ?C + k = i' * ?C + k'" using e by simp
  have "(i * ?C + k) mod ?C = k" using assms by simp
  moreover have "(i' * ?C + k') mod ?C = k'" using assms by simp
  ultimately have k: "k = k'" using e2 by simp
  have "(i * ?C + k) div ?C = i" using assms by simp
  moreover have "(i' * ?C + k') div ?C = i'" using assms by simp
  ultimately have "i = i'" using e2 by simp
  with j k show "i = i' \<and> k = k' \<and> j = j'" by simp
next
  assume "i = i' \<and> k = k' \<and> j = j'"
  then show "index3 L B i k j = index3 L B i' k' j'" by simp
qed

subsection \<open>The backward loops\<close>

lemma backward_c_wf:
  "backward_c L B (shape_axis B * inner_num L) (n_label_at L B i j) (p_label_at L B i j) i j k =
     mixed_weight L B i j k"
  by (simp add: backward_c_def mixed_weight_def prob_at_def index3_def)

lemma backward_k_eq:
  "backward_k L B (shape_axis B * inner_num L) (n_label_at L B i j) (p_label_at L B i j) i j k d =
     d[index3 L B i k j := dt_sub (d ! index3 L B i k j) (mixed_weight L B i j k)]"
  by (simp add: backward_k_def backward_c_wf index3_def)

lemma backward_zero_eq:
  "backward_zero L (shape_axis B * inner_num L) i j c d = d[index3 L B i c j := Fin 0]"
  by (simp add: backward_zero_def index3_def)

lemma fold_backward_k:
  assumes "m \<le> shape_axis B" "i < outer_num L" "j < inner_num L"
    and "length d = outer_num L * shape_axis B * inner_num L"
  shows "length (fold (backward_k L B (shape_axis B * inner_num L)
                  (n_label_at L B i j) (p_label_at L B i j) i j) [0..<m] d) = length d \<and>
         (\<forall>i' k' j'. k' < shape_axis B \<longrightarrow> j' < inner_num L \<longrightarrow>
            fold (backward_k L B (shape_axis B * inner_num L)
                  (n_label_at L B i j) (p_label_at L B i j) i j) [0..<m] d ! index3 L B i' k' j' =
            (if i' = i \<and> j' = j \<and> k' < m
             then dt_sub (d ! index3 L B i' k' j') (mixed_weight L B i j k')
             else d ! index3 L B i' k' j'))"
  using assms(1)
proof (induction m)
  case 0
  show ?case by simp
next
  case (Suc m)
  let ?X = "fold (backward_k L B (shape_axis B * inner_num L)
                  (n_label_at L B i j) (p_label_at L B i j) i j) [0..<m] d"
  from Suc have m: "m < shape_axis B" and IH_len: "length ?X = length d"
    and IH: "\<And>i' k' j'. k' < shape_axis B \<Longrightarrow> j' < inner_num L \<Longrightarrow>
       ?X ! index3 L B i' k' j' =
            (if i' = i \<and> j' = j \<and> k' < m
             then dt_sub (d ! index3 L B i' k' j') (mixed_weight L B i j k')
             else d ! index3 L B i' k' j')"
    by simp_all
  have lt: "index3 L B i m j < length ?X"
    using index3_lt [OF assms(2) m assms(3)] IH_len assms(4) by simp
  have step: "fold (backward_k L B (shape_axis B * inner_num L)
                  (n_label_at L B i j) (p_label_at L B i j) i j) [0..<Suc m] d =
        ?X[index3 L B i m j := dt_sub (?X ! index3 L B i m j) (mixed_weight L B i j m)]"
    by (simp add: backward_k_eq)
  show ?case
  proof (intro conjI allI impI)
    show "length (fold (backward_k L B (shape_axis B * inner_num L)
                  (n_label_at L B i j) (p_label_at L B i j) i j) [0..<Suc m] d) = length d"
      by (simp only: step length_list_update IH_len)
  next
    fix i' k' j'
    assume k': "k' < shape_axis B" and j': "j' < inner_num L"
    show "fold (backward_k L B (shape_axis B * inner_num L)
                  (n_label_at L B i j) (p_label_at L B i j) i j) [0..<Suc m] d ! index3 L B i' k' j' =
            (if i' = i \<and> j' = j \<and> k' < Suc m
             then dt_sub (d ! index3 L B i' k' j') (mixed_weight L B i j k')
             else d ! index3 L B i' k' j')"
    proof (cases "i' = i \<and> k' = m \<and> j' = j")
      case True
      then show ?thesis using lt IH [OF m assms(3), of i] by (simp add: backward_k_eq)
    next
      case False
      then have ne: "index3 L B i m j \<noteq> index3 L B i' k' j'"
        using index3_eq_iff [OF m assms(3) k' j', of i i'] by auto
      from False have "(i' = i \<and> j' = j \<and> k' < Suc m) = (i' = i \<and> j' = j \<and> k' < m)"
        by auto
      then show ?thesis using ne IH [OF k' j', of i'] by (simp add: backward_k_eq)
    qed
  qed
qed

lemma fold_backward_zero:
  assumes "m \<le> shape_axis B" "i < outer_num L" "j < inner_num L"
    and "length d = outer_num L * shape_axis B * inner_num L"
  shows "length (fold (backward_zero L (shape_axis B * inner_num L) i j) [0..<m] d) = length d \<and>
         (\<forall>i' k' j'. k' < shape_axis B \<longrightarrow> j' < inner_num L \<longrightarrow>
            fold (backward_zero L (shape_axis B * inner_num L) i j) [0..<m] d ! index3 L B i' k' j' =
            (if i' = i \<and> j' = j \<and> k' < m then Fin 0 else d ! index3 L B i' k' j'))"
  using assms(1)
proof (induction m)
  case 0
  show ?case by simp
next
  case (Suc m)
  let ?X = "fold (backward_zero L (shape_axis B * inner_num L) i j) [0..<m] d"
  from Suc have m: "m < shape_axis B" and IH_len: "length ?X = length d"
    and IH: "\<And>i' k' j'. k' < shape_axis B \<Longrightarrow> j' < inner_num L \<Longrightarrow>
       ?X ! index3 L B i' k' j' =
            (if i' = i \<and> j' = j \<and> k' < m then Fin 0 else d ! index3 L B i' k' j')"
    by simp_all
  have lt: "index3 L B i m j < length ?X"
    using index3_lt [OF assms(2) m assms(3)] IH_len assms(4) by simp
  have step: "fold (backward_zero L (shape_axis B * inner_num L) i j) [0..<Suc m] d =
        ?X[index3 L B i m j := Fin 0]"
    by (simp add: backward_zero_eq)
  show ?case
  proof (intro conjI allI impI)
    show "length (fold (backward_zero L (shape_axis B * inner_num L) i j) [0..<Suc m] d) = length d"
      by (simp only: step length_list_update IH_len)
  next
    fix i' k' j'
    assume k': "k' < shape_axis B" and j': "j' < inner_num L"
    show "fold (backward_zero L (shape_axis B * inner_num L) i j) [0..<Suc m] d ! index3 L B i' k' j' =
            (if i' = i \<and> j' = j \<and> k' < Suc m then Fin 0 else d ! index3 L B i' k' j')"
    proof (cases "i' = i \<and> k' = m \<and> j' = j")
      case True
      then show ?thesis using lt by (simp add: backward_zero_eq)
    next
      case False
      then have ne: "index3 L B i m j \<noteq> index3 L B i' k' j'"
        using index3_eq_iff [OF m assms(3) k' j', of i i'] by auto
      from False have "(i' = i \<and> j' = j \<and> k' < Suc m) = (i' = i \<and> j' = j \<and> k' < m)"
        by auto
      then show ?thesis using ne IH [OF k' j', of i'] by (simp add: backward_zero_eq)
    qed
  qed
qed

lemma backward_j_step:
  assumes ch: "channels B = shape_axis B" and i: "i < outer_num L" and j: "j < inner_num L"
    and len: "length d = outer_num L * shape_axis B * inner_num L"
  shows "\<exists>d'. backward_j L B (shape_axis B * inner_num L) i j (d, cnt) =
                 (d', cnt + (if ignored_at L B i j then 0 else 1)) \<and>
              length d' = length d \<and>
              (\<forall>i' k' j'. k' < shape_axis B \<longrightarrow> j' < inner_num L \<longrightarrow>
                 d' ! index3 L B i' k' j' =
                 (if i' = i \<and> j' = j then grad_cell L B i j k' (d ! index3 L B i' k' j')
                  else d ! index3 L B i' k' j'))"
proof (cases "ignored_at L B i j")
  case True
  then have "backward_j L B (shape_axis B * inner_num L) i j (d, cnt) =
      (fold (backward_zero L (shape_axis B * inner_num L) i j) [0..<shape_axis B] d, cnt)"
    by (simp add: backward_j_def ignored_at_def n_label_at_def Let_def)
  with True fold_backward_zero [OF le_refl i j len] show ?thesis
    by (simp add: grad_cell_def)
next
  case False
  then have "backward_j L B (shape_axis B * inner_num L) i j (d, cnt) =
      (fold (backward_k L B (shape_axis B * inner_num L)
               (n_label_at L B i j) (p_label_at L B i j) i j) [0..<shape_axis B] d, Suc cnt)"
    by (simp add: backward_j_def ignored_at_def n_label_at_def p_label_at_def Let_def ch)
  with False fold_backward_k [OF le_refl i j len] show ?thesis
    by (simp add: grad_cell_def)
qed

lemma fold_backward_j:
  assumes ch: "channels B = shape_axis B" and i: "i < outer_num L" and m: "m \<le> inner_num L"
    and len: "length d = outer_num L * shape_axis B * inner_num L"
  shows "\<exists>d'. fold (backward_j L B (shape_axis B * inner_num L) i) [0..<m] (d, cnt) =
                 (d', cnt + (\<Sum>j<m. if ignored_at L B i j then 0 else 1)) \<and>
              length d' = length d \<and>
              (\<forall>i' k' j'. k' < shape_axis B \<longrightarrow> j' < inner_num L \<longrightarrow>
                 d' ! index3 L B i' k' j' =
                 (if i' = i \<and> j' < m then grad_cell L B i j' k' (d ! index3 L B i' k' j')
                  else d ! index3 L B i' k' j'))"
  using m
proof (induction m)
  case 0
  show ?case by simp
next
  case (Suc m)
  then have m: "m < inner_num L" by simp
  from Suc obtain d1 where
    f1: "fold (backward_j L B (shape_axis B * inner_num L) i) [0..<m] (d, cnt) =
           (d1, cnt + (\<Sum>j<m. if ignored_at L B i j then 0 else 1))"
    and l1: "length d1 = length d"
    and n1: "\<And>i' k' j'. k' < shape_axis B \<Longrightarrow> j' < inner_num L \<Longrightarrow>
                 d1 ! index3 L B i' k' j' =
                 (if i' = i \<and> j' < m then grad_cell L B i j' k' (d ! index3 L B i' k' j')
                  else d ! index3 L B i' k' j')"
    by auto
  from l1 len have len1: "length d1 = outer_num L * shape_axis B * inner_num L" by simp
  from backward_j_step [OF ch i m len1, of "cnt + (\<Sum>j<m. if ignored_at L B i j then 0 else 1)"]
  obtain d2 where
    f2: "backward_j L B (shape_axis B * inner_num L) i m
           (d1, cnt + (\<Sum>j<m. if ignored_at L B i j then 0 else 1)) =
         (d2, cnt + (\<Sum>j<m. if ignored_at L B i j then 0 else 1) +
              (if ignored_at L B i m then 0 else 1))"
    and l2: "length d2 = length d1"
    and n2: "\<And>i' k' j'. k' < shape_axis B \<Longrightarrow> j' < inner_num L \<Longrightarrow>
                 d2 ! index3 L B i' k' j' =
                 (if i' = i \<and> j' = m then grad_cell L B i m k' (d1 ! index3 L B i' k' j')
                  else d1 ! index3 L B i' k' j')"
    by auto
  have "fold (backward_j L B (shape_axis B * inner_num L) i) [0..<Suc m] (d, cnt) =
          (d2, cnt + (\<Sum>j<Suc m. if ignored_at L B i j then 0 else 1))"
    using f1 f2 by simp
  moreover have "length d2 = length d" using l1 l2 by simp
  moreover have "d2 ! index3 L B i' k' j' =
                 (if i' = i \<and> j' < Suc m then grad_cell L B i j' k' (d ! index3 L B i' k' j')
                  else d ! index3 L B i' k' j')"
    if "k' < shape_axis B" "j' < inner_num L" for i' k' j'
    using n2 [OF that, of i'] n1 [OF that, of i'] by (auto simp: less_Suc_eq)
  ultimately show ?case by blast
qed

lemma fold_backward_i:
  assumes ch: "channels B = shape_axis B" and m: "m \<le> outer_num L"
    and len: "length d = outer_num L * shape_axis B * inner_num L"
  shows "\<exists>d'. fold (backward_i L B (shape_axis B * inner_num L)) [0..<m] (d, cnt) =
                 (d', cnt + (\<Sum>i<m. \<Sum>j<inner_num L. if ignored_at L B i j then 0 else 1)) \<and>
              length d' = length d \<and>
              (\<forall>i' k' j'. k' < shape_axis B \<longrightarrow> j' < inner_num L \<longrightarrow>
                 d' ! index3 L B i' k' j' =
                 (if i' < m then grad_cell L B i' j' k' (d ! index3 L B i' k' j')
                  else d ! index3 L B i' k' j'))"
  using m
proof (induction m)
  case 0
  show ?case by simp
next
  case (Suc m)
  then have m: "m < outer_num L" by simp
  from Suc obtain d1 where
    f1: "fold (backward_i L B (shape_axis B * inner_num L)) [0..<m] (d, cnt) =
           (d1, cnt + (\<Sum>i<m. \<Sum>j<inner_num L. if ignored_at L B i j then 0 else 1))"
    and l1: "length d1 = length d"
    and n1: "\<And>i' k' j'. k' < shape_axis B \<Longrightarrow> j' < inner_num L \<Longrightarrow>
                 d1 ! index3 L B i' k' j' =
                 (if i' < m then grad_cell L B i' j' k' (d ! index3 L B i' k' j')
                  else d ! index3 L B i' k' j')"
    by auto
  from l1 len have len1: "length d1 = outer_num L * shape_axis B * inner_num L" by simp
  from fold_backward_j [OF ch m le_refl len1,
      of "cnt + (\<Sum>i<m. \<Sum>j<inner_num L. if ignored_at L B i j then 0 else 1)"]
  obtain d2 where
    f2: "backward_i L B (shape_axis B * inner_num L) m
           (d1, cnt + (\<Sum>i<m. \<Sum>j<inner_num L. if ignored_at L B i j then 0 else 1)) =
         (d2, cnt + (\<Sum>i<m. \<Sum>j<inner_num L. if ignored_at L B i j then 0 else 1) +
              (\<Sum>j<inner_num L. if ignored_at L B m j then 0 else 1))"
    and l2: "length d2 = length d1"
    and n2: "\<And>i' k' j'. k' < shape_axis B \<Longrightarrow> j' < inner_num L \<Longrightarrow>
                 d2 ! index3 L B i' k' j' =
                 (if i' = m \<and> j' < inner_num L
                  then grad_cell L B m j' k' (d1 ! index3 L B i' k' j')
                  else d1 ! index3 L B i' k' j')"
    unfolding backward_i_def by auto
  have "fold (backward_i L B (shape_axis B * inner_num L)) [0..<Suc m] (d, cnt) =
          (d2, cnt + (\<Sum>i<Suc m. \<Sum>j<inner_num L. if ignored_at L B i j then 0 else 1))"
    using f1 f2 by simp
  moreover have "length d2 = length d" using l1 l2 by simp
  moreover have "d2 ! index3 L B i' k' j' =
                 (if i' < Suc m then grad_cell L B i' j' k' (d ! index3 L B i' k' j')
                  else d ! index3 L B i' k' j')"
    if "k' < shape_axis B" "j' < inner_num L" for i' k' j'
    using n2 [OF that, of i'] n1 [OF that, of i'] that by (auto simp: less_Suc_eq)
  ultimately show ?case by blast
qed

lemma backward_loops_eq:
  assumes "wf L B" and ch: "channels B = shape_axis B"
    and len: "length d = length (prob_data B)"
  shows "\<exists>d'. backward_loops L B (length (prob_data B) div outer_num L) d = (d', valid_count L B) \<and>
              length d' = length d \<and>
              (\<forall>i k j. i < outer_num L \<longrightarrow> k < shape_axis B \<longrightarrow> j < inner_num L \<longrightarrow>
                 d' ! index3 L B i k j = grad_cell L B i j k (d ! index3 L B i k j))"
proof -
  from assms have l: "length d = outer_num L * shape_axis B * inner_num L"
    by (simp add: wf_def)
  from fold_backward_i [OF ch le_refl l, of 0] show ?thesis
    unfolding backward_loops_def wf_dim [OF assms(1)] valid_count_def by auto
qed

subsection \<open>The copy, the scaling and the divisor\<close>

lemma valid_count_pos:
  assumes "i < outer_num L" "j < inner_num L" "\<not> ignored_at L B i j"
  shows "0 < valid_count L B"
proof -
  let ?f = "\<lambda>i j. if ignored_at L B i j then 0 else (1::nat)"
  have "?f i j \<le> (\<Sum>j<inner_num L. ?f i j)"
    using assms(2) by (intro member_le_sum) simp_all
  also have "\<dots> \<le> (\<Sum>i<outer_num L. \<Sum>j<inner_num L. ?f i j)"
    using assms(1) by (intro member_le_sum [where f = "\<lambda>i. \<Sum>j<inner_num L. ?f i j"]) simp_all
  finally show ?thesis using assms(3) by (simp add: valid_count_def)
qed

lemma divisor_pos:
  assumes "i < outer_num L" "j < inner_num L" "\<not> ignored_at L B i j"
  shows "0 < divisor L B"
  using valid_count_pos [OF assms] assms(1) by (simp add: divisor_def)

lemma caffe_copy_nth:
  "length Y = length X \<Longrightarrow> a < length X \<Longrightarrow> caffe_copy (length X) X Y ! a = Fin (X ! a)"
  by (simp add: caffe_copy_def)

lemma caffe_copy_length:
  "length Y = length X \<Longrightarrow> length (caffe_copy (length X) X Y) = length X"
  by (simp add: caffe_copy_def)

lemma caffe_scal_nth:
  "a < length X \<Longrightarrow> caffe_scal (length X) alpha X ! a = dt_mul alpha (X ! a)"
  by (simp add: caffe_scal_def)

lemma Backward_cpu_cell:
  assumes wf: "wf L B" and ch: "channels B = shape_axis B"
    and len: "length bottom_diff = length (prob_data B)"
    and pd: "propagate_down ! 0" "\<not> propagate_down ! 1"
    and ikj: "i < outer_num L" "k < shape_axis B" "j < inner_num L"
  shows "\<exists>g. Backward_cpu L B loss_weight propagate_down bottom_diff = Inr g \<and>
           g ! index3 L B i k j =
             dt_mul (dt_div loss_weight (divisor L B))
               (grad_cell L B i j k (Fin (prob_at L B i k j)))"
proof -
  let ?d0 = "caffe_copy (length (prob_data B)) (prob_data B) bottom_diff"
  from wf have o: "outer_num L \<noteq> 0"
    and lp: "length (prob_data B) = outer_num L * shape_axis B * inner_num L"
    by (simp_all add: wf_def)
  have a: "index3 L B i k j < length (prob_data B)"
    using index3_lt [OF ikj] lp by simp
  have l0: "length ?d0 = length (prob_data B)"
    using len by (rule caffe_copy_length)
  from backward_loops_eq [OF wf ch l0] obtain d1 where
    bl: "backward_loops L B (length (prob_data B) div outer_num L) ?d0 = (d1, valid_count L B)"
    and l1: "length d1 = length ?d0"
    and c1: "d1 ! index3 L B i k j = grad_cell L B i j k (?d0 ! index3 L B i k j)"
    using ikj by blast
  have c0: "?d0 ! index3 L B i k j = Fin (prob_at L B i k j)"
    using caffe_copy_nth [OF len a] by (simp add: prob_at_def)
  have l1': "length (prob_data B) = length d1" using l0 l1 by simp
  have a1: "index3 L B i k j < length d1" using a l1' by simp
  have "Backward_cpu L B loss_weight propagate_down bottom_diff =
          Inr (caffe_scal (length d1) (dt_div loss_weight (divisor L B)) d1)"
    using pd o bl by (simp add: Backward_cpu_def Let_def divisor_def l1' [symmetric])
  moreover have "caffe_scal (length d1) (dt_div loss_weight (divisor L B)) d1 ! index3 L B i k j =
      dt_mul (dt_div loss_weight (divisor L B)) (grad_cell L B i j k (Fin (prob_at L B i k j)))"
    using caffe_scal_nth [OF a1] c1 c0 by simp
  ultimately show ?thesis by blast
qed

lemma Backward_cpu_valid_cell:
  assumes "wf L B" and "channels B = shape_axis B"
    and "length bottom_diff = length (prob_data B)"
    and "propagate_down ! 0" and "\<not> propagate_down ! 1"
    and "i < outer_num L" and "k < shape_axis B" and "j < inner_num L"
    and "\<not> ignored_at L B i j"
  shows "\<exists>g. Backward_cpu L B loss_weight propagate_down bottom_diff = Inr g \<and>
           g ! index3 L B i k j =
             Fin ((prob_at L B i k j - mixed_weight L B i j k) * loss_weight / divisor L B) \<and>
           0 < divisor L B"
proof -
  have pos: "0 < divisor L B" using assms(6,8,9) by (rule divisor_pos)
  from Backward_cpu_cell [OF assms(1-8), of loss_weight] obtain g where
    g: "Backward_cpu L B loss_weight propagate_down bottom_diff = Inr g"
    and c: "g ! index3 L B i k j =
             dt_mul (dt_div loss_weight (divisor L B))
               (grad_cell L B i j k (Fin (prob_at L B i k j)))"
    by blast
  from c assms(9) pos have "g ! index3 L B i k j =
      Fin ((prob_at L B i k j - mixed_weight L B i j k) * loss_weight / divisor L B)"
    by (simp add: grad_cell_def dt_div_def)
  with g pos show ?thesis by blast
qed

subsection \<open>The example inputs\<close>

lemma wf_ex: "wf L_ex B_ex"
  by (simp add: wf_def L_ex_def B_ex_def)

lemma valid_ex: "\<not> ignored_at L_ex B_ex 0 0"
  by (simp add: ignored_at_def n_label_at_def static_cast_int_def L_ex_def B_ex_def)

lemma ignored_ex: "ignored_at L_ex B_ex 1 0"
  by (simp add: ignored_at_def n_label_at_def static_cast_int_def L_ex_def B_ex_def)

lemma valid_count_ex: "valid_count L_ex B_ex = 1"
  by (simp add: valid_count_def ignored_at_def n_label_at_def static_cast_int_def L_ex_def B_ex_def
      numeral_2_eq_2)

lemma wf_dbl: "wf L_dbl B_dbl"
  by (simp add: wf_def L_dbl_def B_dbl_def)

lemma ch_ex: "channels B_ex = shape_axis B_ex"
  by (simp add: B_ex_def)

subsection \<open>The loss as a whole\<close>

lemma forward_j_spec:
  "forward_j L B (shape_axis B * inner_num L) i j (loss, count) =
     (if ignored_at L B i j then (loss, count)
      else (loss + (\<Sum>k<channels B. - mixed_weight L B i j k *
                       ln (max (prob_at L B i k j) FLT_MIN)), count + 1))"
  by (simp add: forward_j_eq fw_pos_wf sum_negf)

lemma Forward_cpu_eq:
  assumes "wf L B" and ch: "channels B = shape_axis B"
  shows "Forward_cpu L B top_size =
           Inr (dt_div (loss_total FLT_MIN L B) (divisor L B),
                if top_size = 2 then Some (prob_data B) else None)"
proof -
  from assms have "outer_num L \<noteq> 0" by (simp add: wf_def)
  then show ?thesis
    by (simp add: Forward_cpu_def wf_dim [OF assms(1)] forward_loops_eq [OF ch] divisor_def)
qed

lemma forward_loops_normalize:
  "forward_loops (L\<lparr>normalize := b\<rparr>) B d = forward_loops L B d"
proof -
  have k: "forward_k (L\<lparr>normalize := b\<rparr>) B d n p i j = forward_k L B d n p i j" for n p i j
    by (simp add: fun_eq_iff forward_k_def forward_c_def)
  have j: "forward_j (L\<lparr>normalize := b\<rparr>) B d i = forward_j L B d i" for i
    by (simp add: fun_eq_iff forward_j_def k Let_def)
  have i: "forward_i (L\<lparr>normalize := b\<rparr>) B d = forward_i L B d"
    by (simp add: fun_eq_iff forward_i_def j)
  show ?thesis by (simp add: forward_loops_def i)
qed

lemma forward_loops_count: "snd (forward_loops L B d) = valid_count L B"
  by (simp add: forward_loops_def fold_forward_i valid_count_def)

lemma agree_off_ignored_totals:
  assumes "agree_off_ignored L B B'"
  shows "loss_total eps L B' = loss_total eps L B" "valid_count L B' = valid_count L B"
    "wf L B' = wf L B"
proof -
  from assms have n: "n_label B' = n_label B" and c: "channels B' = channels B"
    and s: "shape_axis B' = shape_axis B"
    and l: "length (prob_data B') = length (prob_data B)" "length (p_label B') = length (p_label B)"
    and a: "\<And>i j. i < outer_num L \<Longrightarrow> j < inner_num L \<Longrightarrow> \<not> ignored_at L B i j \<Longrightarrow>
        p_label_at L B' i j = p_label_at L B i j \<and>
        (\<forall>k<shape_axis B. prob_at L B' i k j = prob_at L B i k j)"
    by (simp_all add: agree_off_ignored_def)
  have nl: "n_label_at L B' = n_label_at L B" by (simp add: n_label_at_def n fun_eq_iff)
  have ig: "ignored_at L B' = ignored_at L B" by (simp add: ignored_at_def nl fun_eq_iff)
  show "valid_count L B' = valid_count L B" by (simp add: valid_count_def ig)
  show "wf L B' = wf L B" by (simp add: wf_def n c s l)
  have mw: "mixed_weight L B' i j k = mixed_weight L B i j k"
    if "i < outer_num L" "j < inner_num L" "\<not> ignored_at L B i j" "k < shape_axis B" for i j k
    using a [OF that(1-3)] that(4) by (simp add: mixed_weight_def nl)
  show "loss_total eps L B' = loss_total eps L B"
    unfolding loss_total_def ig s
  proof (intro sum.cong refl)
    fix i j assume "i \<in> {..<outer_num L}" "j \<in> {..<inner_num L}"
    then have ij: "i < outer_num L" "j < inner_num L" by simp_all
    show "(if ignored_at L B i j then 0
           else \<Sum>k<shape_axis B. - mixed_weight L B' i j k * ln (max (prob_at L B' i k j) eps)) =
          (if ignored_at L B i j then 0
           else \<Sum>k<shape_axis B. - mixed_weight L B i j k * ln (max (prob_at L B i k j) eps))"
    proof (cases "ignored_at L B i j")
      case True
      then show ?thesis by simp
    next
      case False
      have "(\<Sum>k<shape_axis B. - mixed_weight L B' i j k * ln (max (prob_at L B' i k j) eps)) =
            (\<Sum>k<shape_axis B. - mixed_weight L B i j k * ln (max (prob_at L B i k j) eps))"
        using mw [OF ij False] a [OF ij False] by (intro sum.cong refl) simp
      with False show ?thesis by simp
    qed
  qed
qed

lemma agree_ex: "agree_off_ignored L_ex B_ex B_ex'"
  by (simp add: agree_off_ignored_def ignored_at_def n_label_at_def p_label_at_def prob_at_def
      index3_def static_cast_int_def L_ex_def B_ex_def B_ex'_def less_Suc_eq numeral_2_eq_2)

subsection \<open>The clamp constants\<close>

lemma ln_inv_pow2: "ln (1 / 2 ^ n) = - real n * ln (2::real)"
  by (simp add: ln_div ln_realpow)

lemma FLT_MIN_bounds: "0 < FLT_MIN" "FLT_MIN \<le> 1"
  by (simp_all add: FLT_MIN_def)

lemma ln_FLT_MIN: "ln FLT_MIN = - 126 * ln 2"
  using ln_inv_pow2 [of 126] by (simp add: FLT_MIN_def)

lemma DBL_MIN_bounds:
  "0 < smallest_positive_normal Double" "smallest_positive_normal Double \<le> 1"
  by (simp_all add: smallest_positive_normal_def)

lemma ln_DBL_MIN: "ln (smallest_positive_normal Double) = - 1022 * ln 2"
  using ln_inv_pow2 [of 1022] by (simp add: smallest_positive_normal_def)

subsection \<open>The weights\<close>

lemma sum_of_bool_label:
  assumes "0 \<le> n" "n < int C"
  shows "(\<Sum>k<C. of_bool (int k = n) :: real) = 1"
proof -
  have "(\<Sum>k<C. of_bool (int k = n) :: real) = (\<Sum>k\<in>{..<C}. if k = nat n then 1 else 0)"
    using assms by (intro sum.cong refl) auto
  also have "\<dots> = 1" using assms by (simp add: sum.delta)
  finally show ?thesis .
qed

lemma beta_one_c:
  assumes "beta L = 1"
  shows "forward_c (L\<lparr>is_hard_mode := True\<rparr>) B d n p i j k =
           forward_c (L\<lparr>is_hard_mode := False\<rparr>) B d n p i j k"
    "backward_c (L\<lparr>is_hard_mode := True\<rparr>) B d n p i j k =
           backward_c (L\<lparr>is_hard_mode := False\<rparr>) B d n p i j k"
  using assms by (simp_all add: forward_c_def backward_c_def)

section \<open>The claims\<close>

text \<open>
  Claim C1. When the gradient of the score input is requested, the gradient at every
  position \<open>(i, k, j)\<close> that is not ignored is
  \<open>(prob[i,k,j] - w(k)) * loss_weight / divisor\<close>. \<open>Backward_cpu\<close> does this when
  \<open>bottom[0]->channels()\<close> is the extent of the softmax axis (\<open>Backward_cpu_valid_cell\<close>), and
  not otherwise: its loop over \<open>k\<close> runs to \<open>bottom[0]->channels()\<close>, while the zeroing loop
  beside it runs to the extent of the softmax axis. At the fourth example, where the
  softmax axis is 2, the loop stops before class 1: the buffer keeps the copy \<open>3 / 4\<close> of the
  probability at \<open>(0, 1, 0)\<close>, where the claim gives \<open>(3 / 4 - 1) * 1 / 1 = - 1 / 4\<close>.
\<close>

theorem C1_backward_gradient_failing_input:
  "wf L_ax B_ax \<and> channels B_ax = 1 \<and> shape_axis B_ax = 2 \<and> \<not> ignored_at L_ax B_ax 0 0 \<and>
   index3 L_ax B_ax 0 1 0 = 1 \<and>
   Backward_cpu L_ax B_ax 1 [True, False] [Fin 0, Fin 0] = Inr [Fin (1 / 4), Fin (3 / 4)] \<and>
   (prob_at L_ax B_ax 0 1 0 - mixed_weight L_ax B_ax 0 0 1) * 1 / divisor L_ax B_ax = - (1 / 4)"
proof (intro conjI)
  show "wf L_ax B_ax" by (simp add: wf_def L_ax_def B_ax_def)
  show "channels B_ax = 1" "shape_axis B_ax = 2" by (simp_all add: B_ax_def)
  show "\<not> ignored_at L_ax B_ax 0 0" by (simp add: ignored_at_def L_ax_def)
  show "index3 L_ax B_ax 0 1 0 = 1" by (simp add: index3_def L_ax_def B_ax_def)
  show "Backward_cpu L_ax B_ax 1 [True, False] [Fin 0, Fin 0] = Inr [Fin (1 / 4), Fin (3 / 4)]"
    by (simp add: Backward_cpu_def caffe_copy_def caffe_scal_def backward_loops_def
        backward_i_def backward_j_def backward_k_def backward_c_def static_cast_int_def
        dt_div_def L_ax_def B_ax_def upt_rec numeral_2_eq_2 Let_def)
  show "(prob_at L_ax B_ax 0 1 0 - mixed_weight L_ax B_ax 0 0 1) * 1 / divisor L_ax B_ax = - (1 / 4)"
    by (simp add: prob_at_def index3_def mixed_weight_def n_label_at_def p_label_at_def
        static_cast_int_def divisor_def L_ax_def B_ax_def)
qed

text \<open>
  Claim C2, amended. Let \<open>bottom[0]->channels()\<close> be the extent of the softmax axis, as it is
  with the softmax axis 1. In the forward pass a position that is ignored leaves the
  running total and the counter of valid positions as they are; any other position adds
  \<open>- w(k) * log (max (prob[i,k,j]) eps)\<close> for every class \<open>k\<close> to the total and one to the
  counter, so that the loops end with the total over all valid positions and their number.
  Here \<open>eps\<close> is \<open>FLT_MIN\<close>, the least positive normalised single-precision value, whatever
  the element type of the tensor.
\<close>

theorem C2_forward_accumulation:
  assumes "wf L B" and "channels B = shape_axis B"
  shows "forward_j L B (length (prob_data B) div outer_num L) i j (loss, count) =
           (if ignored_at L B i j then (loss, count)
            else (loss + (\<Sum>k<shape_axis B. - mixed_weight L B i j k *
                     ln (max (prob_at L B i k j) (smallest_positive_normal Float))), count + 1)) \<and>
         forward_loops L B (length (prob_data B) div outer_num L) =
           (loss_total (smallest_positive_normal Float) L B, valid_count L B)"
proof -
  have e: "smallest_positive_normal Float = FLT_MIN"
    by (simp add: smallest_positive_normal_def FLT_MIN_def)
  have "forward_j L B (shape_axis B * inner_num L) i j (loss, count) =
           (if ignored_at L B i j then (loss, count)
            else (loss + (\<Sum>k<shape_axis B. - mixed_weight L B i j k *
                     ln (max (prob_at L B i k j) FLT_MIN)), count + 1))"
    using forward_j_spec [of L B i j loss count] by (simp only: assms(2))
  then show ?thesis
    unfolding wf_dim [OF assms(1)] e by (simp only: forward_loops_eq [OF assms(2)] simp_thms)
qed

text \<open>The theorem at the first example.\<close>

theorem C2_forward_accumulation_witness:
  "wf L_ex B_ex \<and> channels B_ex = shape_axis B_ex \<and> ignored_at L_ex B_ex 1 0 \<and>
   forward_j L_ex B_ex (length (prob_data B_ex) div outer_num L_ex) 1 0 (5, 3) = (5, 3) \<and>
   forward_loops L_ex B_ex (length (prob_data B_ex) div outer_num L_ex) =
     (loss_total (smallest_positive_normal Float) L_ex B_ex, valid_count L_ex B_ex)"
  using C2_forward_accumulation [OF wf_ex ch_ex, of 1 0 5 3] wf_ex ch_ex ignored_ex by simp

text \<open>
  Claim C2 as stated fails for the double-precision instantiation, also with the softmax
  axis 1: with a probability of zero at the class of the noisy label the code accumulates
  \<open>- log FLT_MIN = 126 * log 2\<close>, while the least positive normalised double would give
  \<open>1022 * log 2\<close>.
\<close>

theorem C2_double_epsilon_counterexample:
  "wf L_dbl B_dbl \<and> channels B_dbl = shape_axis B_dbl \<and>
   fst (forward_loops L_dbl B_dbl (length (prob_data B_dbl) div outer_num L_dbl)) = 126 * ln 2 \<and>
   loss_total (smallest_positive_normal Double) L_dbl B_dbl = 1022 * ln 2 \<and>
   126 * ln 2 \<noteq> 1022 * ln (2::real)"
proof (intro conjI)
  show "wf L_dbl B_dbl" by (rule wf_dbl)
  show "channels B_dbl = shape_axis B_dbl" by (simp add: B_dbl_def)
  have m: "max 0 FLT_MIN = FLT_MIN" "max 1 FLT_MIN = 1"
    using FLT_MIN_bounds by (simp_all add: max_def)
  show "fst (forward_loops L_dbl B_dbl (length (prob_data B_dbl) div outer_num L_dbl)) = 126 * ln 2"
    by (simp add: forward_loops_def forward_i_def forward_j_def forward_k_def forward_c_def
        static_cast_int_def L_dbl_def B_dbl_def upt_rec numeral_2_eq_2 Let_def m ln_FLT_MIN)
  have m': "max 0 (smallest_positive_normal Double) = smallest_positive_normal Double"
    "max 1 (smallest_positive_normal Double) = 1"
    using DBL_MIN_bounds by (simp_all add: max_def)
  show "loss_total (smallest_positive_normal Double) L_dbl B_dbl = 1022 * ln 2"
    by (simp add: loss_total_def ignored_at_def mixed_weight_def prob_at_def index3_def
        n_label_at_def p_label_at_def static_cast_int_def
        L_dbl_def B_dbl_def numeral_2_eq_2 m' ln_DBL_MIN)
  have "0 < ln (2::real)" by simp
  then show "126 * ln 2 \<noteq> 1022 * ln (2::real)" by simp
qed



text \<open>
  Claim C4. Let the loops of \<open>Forward_cpu\<close> end with the accumulated total \<open>acc\<close> and the
  counter \<open>count\<close>, which is the number of valid positions. The loss returned is the quotient
  \<open>acc / count\<close> when \<open>normalize\<close> is set (not a finite number for \<open>count = 0\<close>) and the
  quotient \<open>acc / outer_num\<close> otherwise. Hence, with \<open>count\<close> valid positions and
  \<open>count > 0\<close>, the loss with \<open>normalize\<close> set is \<open>outer_num / count\<close> times the loss without
  it on the same inputs. With \<open>bottom[0]->channels()\<close> the extent of the softmax axis, the
  total is the sum of \<open>- w(k) * log (max (prob[i,k,j]) FLT_MIN)\<close> over the valid positions
  and the classes.
\<close>

theorem C4_forward_normalization:
  assumes "0 < outer_num L"
    and "forward_loops L B (length (prob_data B) div outer_num L) = (acc, count)"
  shows "count = valid_count L B \<and>
         (normalize L \<and> 0 < count \<longrightarrow>
            Forward_cpu L B top_size =
              Inr (Fin (acc / real count),
                   if top_size = 2 then Some (prob_data B) else None)) \<and>
         (normalize L \<and> count = 0 \<longrightarrow>
            Forward_cpu L B top_size =
              Inr (NonFinite, if top_size = 2 then Some (prob_data B) else None)) \<and>
         (\<not> normalize L \<longrightarrow>
            Forward_cpu L B top_size =
              Inr (Fin (acc / real (outer_num L)),
                   if top_size = 2 then Some (prob_data B) else None)) \<and>
         (0 < count \<longrightarrow>
            Forward_cpu (L\<lparr>normalize := True\<rparr>) B top_size =
              Inr (Fin (acc / real count),
                   if top_size = 2 then Some (prob_data B) else None) \<and>
            Forward_cpu (L\<lparr>normalize := False\<rparr>) B top_size =
              Inr (Fin (acc / real (outer_num L)),
                   if top_size = 2 then Some (prob_data B) else None) \<and>
            acc / real count =
              real (outer_num L) / real count * (acc / real (outer_num L))) \<and>
         (wf L B \<and> channels B = shape_axis B \<longrightarrow> acc = loss_total FLT_MIN L B)"
proof -
  let ?out = "if top_size = 2 then Some (prob_data B) else None"
  from assms(1) have o: "outer_num L \<noteq> 0" by simp
  have c: "count = valid_count L B"
    using forward_loops_count [of L B "length (prob_data B) div outer_num L"] assms(2) by simp
  have n: "normalize L \<Longrightarrow> Forward_cpu L B top_size = Inr (dt_div acc (real count), ?out)"
    using o assms(2) by (simp add: Forward_cpu_def)
  have u: "\<not> normalize L \<Longrightarrow>
      Forward_cpu L B top_size = Inr (Fin (acc / real (outer_num L)), ?out)"
    using o assms(2) by (simp add: Forward_cpu_def dt_div_def)
  have t: "Forward_cpu (L\<lparr>normalize := True\<rparr>) B top_size = Inr (dt_div acc (real count), ?out)"
    using o assms(2) by (simp add: Forward_cpu_def forward_loops_normalize)
  have f: "Forward_cpu (L\<lparr>normalize := False\<rparr>) B top_size =
      Inr (Fin (acc / real (outer_num L)), ?out)"
    using o assms(2) by (simp add: Forward_cpu_def forward_loops_normalize dt_div_def)
  have q: "0 < count \<Longrightarrow>
      acc / real count = real (outer_num L) / real count * (acc / real (outer_num L))"
    using assms(1) by simp
  have s: "wf L B \<and> channels B = shape_axis B \<Longrightarrow> acc = loss_total FLT_MIN L B"
  proof -
    assume a: "wf L B \<and> channels B = shape_axis B"
    then have "forward_loops L B (length (prob_data B) div outer_num L) =
        (loss_total FLT_MIN L B, valid_count L B)"
      by (simp add: wf_dim forward_loops_eq)
    with assms(2) show ?thesis by simp
  qed
  show ?thesis
  proof (intro conjI impI)
    show "count = valid_count L B" by (rule c)
  next
    assume "normalize L \<and> 0 < count"
    then show "Forward_cpu L B top_size = Inr (Fin (acc / real count), ?out)"
      using n by (simp add: dt_div_def)
  next
    assume "normalize L \<and> count = 0"
    then show "Forward_cpu L B top_size = Inr (NonFinite, ?out)"
      using n by (simp add: dt_div_def)
  next
    assume "\<not> normalize L"
    then show "Forward_cpu L B top_size = Inr (Fin (acc / real (outer_num L)), ?out)"
      by (rule u)
  next
    assume "0 < count"
    then show "Forward_cpu (L\<lparr>normalize := True\<rparr>) B top_size =
        Inr (Fin (acc / real count), ?out)"
      using t by (simp add: dt_div_def)
  next
    show "Forward_cpu (L\<lparr>normalize := False\<rparr>) B top_size =
        Inr (Fin (acc / real (outer_num L)), ?out)"
      by (rule f)
  next
    assume "0 < count"
    then show "acc / real count = real (outer_num L) / real count * (acc / real (outer_num L))"
      by (rule q)
  next
    assume "wf L B \<and> channels B = shape_axis B"
    then show "acc = loss_total FLT_MIN L B" by (rule s)
  qed
qed

text \<open>
  The theorem at the first example, with two positions of which one is valid, at the
  second example, where \<open>normalize\<close> is not set and the total is \<open>126 * log 2\<close>, and at the
  third, where no position is valid.
\<close>

theorem C4_forward_normalization_witness:
  "0 < outer_num L_ex \<and>
   forward_loops L_ex B_ex (length (prob_data B_ex) div outer_num L_ex) =
     (loss_total FLT_MIN L_ex B_ex, 1) \<and>
   normalize L_ex \<and> valid_count L_ex B_ex = 1 \<and> wf L_ex B_ex \<and> channels B_ex = shape_axis B_ex \<and>
   Forward_cpu L_ex B_ex 1 = Inr (Fin (loss_total FLT_MIN L_ex B_ex / 1), None) \<and>
   Forward_cpu (L_ex\<lparr>normalize := True\<rparr>) B_ex 1 =
     Inr (Fin (loss_total FLT_MIN L_ex B_ex / 1), None) \<and>
   Forward_cpu (L_ex\<lparr>normalize := False\<rparr>) B_ex 1 =
     Inr (Fin (loss_total FLT_MIN L_ex B_ex / 2), None) \<and>
   0 < outer_num L_dbl \<and>
   forward_loops L_dbl B_dbl (length (prob_data B_dbl) div outer_num L_dbl) = (126 * ln 2, 1) \<and>
   \<not> normalize L_dbl \<and>
   Forward_cpu L_dbl B_dbl 2 = Inr (Fin (126 * ln 2 / 1), Some [0, 1]) \<and>
   0 < outer_num L_deg \<and>
   forward_loops L_deg B_deg (length (prob_data B_deg) div outer_num L_deg) = (0, 0) \<and>
   normalize L_deg \<and>
   Forward_cpu L_deg B_deg 1 = Inr (NonFinite, None)"
proof -
  have o: "0 < outer_num L_ex" "0 < outer_num L_dbl" by (simp_all add: L_ex_def L_dbl_def)
  have o3: "0 < outer_num L_deg" and n3: "normalize L_deg" by (simp_all add: L_deg_def)
  have l3: "forward_loops L_deg B_deg (length (prob_data B_deg) div outer_num L_deg) = (0, 0)"
    by (simp add: forward_loops_def forward_i_def forward_j_def static_cast_int_def
        L_deg_def B_deg_def upt_rec Let_def)
  have ov: "outer_num L_ex = 2" "outer_num L_dbl = 1" by (simp_all add: L_ex_def L_dbl_def)
  have n: "normalize L_ex" "\<not> normalize L_dbl" by (simp_all add: L_ex_def L_dbl_def)
  have pd: "prob_data B_dbl = [0, 1]" by (simp add: B_dbl_def)
  have l1: "forward_loops L_ex B_ex (length (prob_data B_ex) div outer_num L_ex) =
     (loss_total FLT_MIN L_ex B_ex, 1)"
    using forward_loops_eq [OF ch_ex, of L_ex] by (simp add: wf_dim [OF wf_ex] valid_count_ex)
  have m: "max 0 FLT_MIN = FLT_MIN" "max 1 FLT_MIN = 1"
    using FLT_MIN_bounds by (simp_all add: max_def)
  have l2: "forward_loops L_dbl B_dbl (length (prob_data B_dbl) div outer_num L_dbl) =
     (126 * ln 2, 1)"
    by (simp add: forward_loops_def forward_i_def forward_j_def forward_k_def forward_c_def
        static_cast_int_def L_dbl_def B_dbl_def upt_rec numeral_2_eq_2 Let_def m ln_FLT_MIN)
  from C4_forward_normalization [OF o(1) l1, of 1] C4_forward_normalization [OF o(2) l2, of 2]
    C4_forward_normalization [OF o3 l3, of 1] o o3 n n3 l1 l2 l3 wf_ex ch_ex valid_count_ex
  show ?thesis by (simp add: ov pd)
qed

text \<open>
  Claim C5. \<open>Backward_cpu\<close> ends in the fatal error of the label gradient if and only if
  the gradient of the label input is requested, whether or not the gradient of the score
  input is requested too; without that request, and with \<open>outer_num\<close> positive, it ends
  without any error; and when neither gradient is requested the gradient buffer is
  returned as it was.
\<close>

theorem C5_label_gradient_fatal:
  "(Backward_cpu L B loss_weight propagate_down bottom_diff = Inl InvalidGradientRequest
      \<longleftrightarrow> propagate_down ! 1) \<and>
   (\<not> propagate_down ! 1 \<and> 0 < outer_num L \<longrightarrow>
      (\<exists>g. Backward_cpu L B loss_weight propagate_down bottom_diff = Inr g)) \<and>
   (\<not> propagate_down ! 0 \<and> \<not> propagate_down ! 1 \<longrightarrow>
      Backward_cpu L B loss_weight propagate_down bottom_diff = Inr bottom_diff)"
  by (simp add: Backward_cpu_def Let_def split: prod.split)

text \<open>The theorem at the four combinations of the two requests.\<close>

theorem C5_label_gradient_fatal_witness:
  "Backward_cpu L_ex B_ex 1 [True, True] [] = Inl InvalidGradientRequest \<and>
   Backward_cpu L_ex B_ex 1 [False, True] [] = Inl InvalidGradientRequest \<and>
   \<not> [True, False] ! 1 \<and> 0 < outer_num L_ex \<and>
   (\<exists>g. Backward_cpu L_ex B_ex 1 [True, False] [Fin 0, Fin 0, Fin 0, Fin 0] = Inr g) \<and>
   \<not> [False, False] ! 0 \<and> \<not> [False, False] ! 1 \<and>
   Backward_cpu L_ex B_ex 1 [False, False] [NonFinite, Fin 7] = Inr [NonFinite, Fin 7]"
proof -
  have o: "0 < outer_num L_ex" by (simp add: L_ex_def)
  from C5_label_gradient_fatal [of L_ex B_ex 1 "[True, True]" "[]"]
    C5_label_gradient_fatal [of L_ex B_ex 1 "[False, True]" "[]"]
    C5_label_gradient_fatal [of L_ex B_ex 1 "[True, False]" "[Fin 0, Fin 0, Fin 0, Fin 0]"]
    C5_label_gradient_fatal [of L_ex B_ex 1 "[False, False]" "[NonFinite, Fin 7]"] o
  show ?thesis by simp
qed

text \<open>
  Claim C6. \<open>Reshape\<close> fails with the shape mismatch exactly when the label count differs
  from \<open>outer_num * inner_num\<close> and succeeds, storing the two counts, when they are equal;
  \<open>Forward_cpu\<close> and \<open>Backward_cpu\<close> never report a shape mismatch, as they do not repeat
  the check.
\<close>

theorem C6_shape_mismatch:
  "(Reshape L count_outer count_inner label_count = Inl ShapeMismatch
      \<longleftrightarrow> count_outer * count_inner \<noteq> label_count) \<and>
   (count_outer * count_inner = label_count \<longrightarrow>
      Reshape L count_outer count_inner label_count =
        Inr (L\<lparr>outer_num := count_outer, inner_num := count_inner\<rparr>)) \<and>
   Forward_cpu L B top_size \<noteq> Inl ShapeMismatch \<and>
   Backward_cpu L B loss_weight propagate_down bottom_diff \<noteq> Inl ShapeMismatch"
  by (simp add: Reshape_def Forward_cpu_def Backward_cpu_def Let_def split: prod.split)

text \<open>The theorem at a label count of three and of two for two positions.\<close>

theorem C6_shape_mismatch_witness:
  "Reshape L_ex 2 1 3 = Inl ShapeMismatch \<and> (2::nat) * 1 = 2 \<and>
   Reshape L_ex 2 1 2 = Inr (L_ex\<lparr>outer_num := 2, inner_num := 1\<rparr>) \<and>
   Forward_cpu L_ex (B_ex\<lparr>n_label := [1, 255, 0]\<rparr>) 1 \<noteq> Inl ShapeMismatch"
  using C6_shape_mismatch [of L_ex 2 1 3 "B_ex\<lparr>n_label := [1, 255, 0]\<rparr>" 1 1 "[]" "[]"]
    C6_shape_mismatch [of L_ex 2 1 2 "B_ex\<lparr>n_label := [1, 255, 0]\<rparr>" 1 1 "[]" "[]"]
  by simp

text \<open>
  Claim C7, amended. Let \<open>bottom[0]->channels()\<close> be the extent of the softmax axis, as it is
  with the softmax axis 1. At a position whose noisy label is the ignore label, every class
  entry of the gradient is exactly zero provided the divisor of the scaling is not zero;
  when it is zero (\<open>normalize\<close> is set and every position is ignored) the entry is not a
  finite number.
  The loss of the forward pass is the same for two inputs that differ only in the
  probabilities and predicted labels at ignored positions.
\<close>

theorem C7_ignored_positions:
  assumes "wf L B" and "channels B = shape_axis B"
  shows "(length bottom_diff = length (prob_data B) \<and> propagate_down ! 0 \<and> \<not> propagate_down ! 1 \<and>
          i < outer_num L \<and> k < shape_axis B \<and> j < inner_num L \<and> ignored_at L B i j \<longrightarrow>
            (\<exists>g. Backward_cpu L B loss_weight propagate_down bottom_diff = Inr g \<and>
                 g ! index3 L B i k j = (if divisor L B = 0 then NonFinite else Fin 0))) \<and>
         (agree_off_ignored L B B' \<longrightarrow>
            (\<exists>loss out out'. Forward_cpu L B top_size = Inr (loss, out) \<and>
                            Forward_cpu L B' top_size = Inr (loss, out')))"
proof (intro conjI impI)
  assume h: "length bottom_diff = length (prob_data B) \<and> propagate_down ! 0 \<and> \<not> propagate_down ! 1 \<and>
          i < outer_num L \<and> k < shape_axis B \<and> j < inner_num L \<and> ignored_at L B i j"
  then have len: "length bottom_diff = length (prob_data B)"
    and pd: "propagate_down ! 0" "\<not> propagate_down ! 1"
    and ikj: "i < outer_num L" "k < shape_axis B" "j < inner_num L"
    and ig: "ignored_at L B i j"
    by simp_all
  from Backward_cpu_cell [OF assms len pd ikj, of loss_weight] obtain g where
    g: "Backward_cpu L B loss_weight propagate_down bottom_diff = Inr g"
    and c: "g ! index3 L B i k j =
             dt_mul (dt_div loss_weight (divisor L B))
               (grad_cell L B i j k (Fin (prob_at L B i k j)))"
    by blast
  from c ig have "g ! index3 L B i k j = (if divisor L B = 0 then NonFinite else Fin 0)"
    by (simp add: grad_cell_def dt_div_def)
  with g show "\<exists>g. Backward_cpu L B loss_weight propagate_down bottom_diff = Inr g \<and>
                 g ! index3 L B i k j = (if divisor L B = 0 then NonFinite else Fin 0)"
    by blast
next
  assume a: "agree_off_ignored L B B'"
  from assms(1) have w': "wf L B'" by (simp add: agree_off_ignored_totals [OF a])
  from assms(2) a have c': "channels B' = shape_axis B'" by (simp add: agree_off_ignored_def)
  have "divisor L B' = divisor L B"
    by (simp add: divisor_def agree_off_ignored_totals [OF a])
  then show "\<exists>loss out out'. Forward_cpu L B top_size = Inr (loss, out) \<and>
                            Forward_cpu L B' top_size = Inr (loss, out')"
    by (simp add: Forward_cpu_eq [OF assms] Forward_cpu_eq [OF w' c']
        agree_off_ignored_totals [OF a])
qed

text \<open>The theorem at the first example and its variant.\<close>

theorem C7_ignored_positions_witness:
  "wf L_ex B_ex \<and> channels B_ex = shape_axis B_ex \<and> ignored_at L_ex B_ex 1 0 \<and>
   agree_off_ignored L_ex B_ex B_ex' \<and>
   prob_data B_ex' \<noteq> prob_data B_ex \<and>
   (\<exists>g. Backward_cpu L_ex B_ex 1 [True, False] [Fin 0, Fin 0, Fin 0, Fin 0] = Inr g \<and>
        g ! 2 = Fin 0) \<and>
   (\<exists>loss out out'. Forward_cpu L_ex B_ex 1 = Inr (loss, out) \<and>
                   Forward_cpu L_ex B_ex' 1 = Inr (loss, out'))"
proof -
  have ix: "index3 L_ex B_ex 1 0 0 = 2" by (simp add: index3_def L_ex_def B_ex_def)
  have dv: "divisor L_ex B_ex = 1"
    by (simp add: divisor_def valid_count_ex) (simp add: L_ex_def)
  have h: "length [Fin 0, Fin 0, Fin 0, Fin 0] = length (prob_data B_ex) \<and> [True, False] ! 0 \<and>
     \<not> [True, False] ! 1 \<and> 1 < outer_num L_ex \<and> 0 < shape_axis B_ex \<and> 0 < inner_num L_ex \<and>
     ignored_at L_ex B_ex 1 0"
    using ignored_ex by (simp add: L_ex_def B_ex_def)
  have ne: "prob_data B_ex' \<noteq> prob_data B_ex" by (simp add: B_ex_def B_ex'_def)
  from C7_ignored_positions [OF wf_ex ch_ex, of "[Fin 0, Fin 0, Fin 0, Fin 0]" "[True, False]" 1 0 0 1 B_ex' 1]
    h agree_ex
  have "(\<exists>g. Backward_cpu L_ex B_ex 1 [True, False] [Fin 0, Fin 0, Fin 0, Fin 0] = Inr g \<and>
        g ! 2 = Fin 0) \<and>
   (\<exists>loss out out'. Forward_cpu L_ex B_ex 1 = Inr (loss, out) \<and>
                   Forward_cpu L_ex B_ex' 1 = Inr (loss, out'))"
    unfolding ix dv by simp
  with wf_ex ch_ex ignored_ex agree_ex ne show ?thesis by blast
qed

text \<open>
  Claim C7 as stated fails when \<open>normalize\<close> is set and every position is ignored, also
  with the softmax axis 1: the zeroed entries are scaled by \<open>loss_weight / 0\<close>.
\<close>

theorem C7_degenerate_gradient_counterexample:
  "wf L_deg B_deg \<and> channels B_deg = shape_axis B_deg \<and> ignored_at L_deg B_deg 0 0 \<and>
   Backward_cpu L_deg B_deg 1 [True, False] [Fin 0, Fin 0] = Inr [NonFinite, NonFinite]"
  by (simp add: wf_def ignored_at_def n_label_at_def Backward_cpu_def caffe_copy_def caffe_scal_def
      backward_loops_def backward_i_def backward_j_def backward_zero_def static_cast_int_def
      dt_div_def L_deg_def B_deg_def upt_rec numeral_2_eq_2 Let_def)

text \<open>
  Claim C8. At a position whose noisy label is a class index, the mixed target weights
  sum to one over the classes: in soft mode when the probabilities of the position sum to
  one, for any \<open>beta\<close>; in hard mode when the predicted label is a class index, whether or
  not it equals the noisy label.
\<close>

theorem C8_weights_sum_to_one:
  assumes "wf L B"
    and "0 \<le> n_label_at L B i j" and "n_label_at L B i j < int (channels B)"
    and "is_hard_mode L \<longrightarrow> 0 \<le> p_label_at L B i j \<and> p_label_at L B i j < int (channels B)"
    and "\<not> is_hard_mode L \<longrightarrow> (\<Sum>k<channels B. prob_at L B i k j) = 1"
  shows "(\<Sum>k<channels B. forward_c L B (length (prob_data B) div outer_num L)
            (n_label_at L B i j) (p_label_at L B i j) i j k) = 1 \<and>
         (\<Sum>k<channels B. mixed_weight L B i j k) = 1"
proof -
  have n: "(\<Sum>k<channels B. of_bool (int k = n_label_at L B i j) :: real) = 1"
    using assms(2,3) by (rule sum_of_bool_label)
  have "(\<Sum>k<channels B. mixed_weight L B i j k) = 1"
  proof (cases "is_hard_mode L")
    case True
    with assms(4) have p: "(\<Sum>k<channels B. of_bool (int k = p_label_at L B i j) :: real) = 1"
      by (intro sum_of_bool_label) simp_all
    from True have "(\<Sum>k<channels B. mixed_weight L B i j k) =
        beta L * (\<Sum>k<channels B. of_bool (int k = n_label_at L B i j)) +
        (1 - beta L) * (\<Sum>k<channels B. of_bool (int k = p_label_at L B i j))"
      by (simp add: mixed_weight_def sum.distrib sum_distrib_left)
    then show ?thesis by (simp only: n p) simp
  next
    case False
    with assms(5) have p: "(\<Sum>k<channels B. prob_at L B i k j) = 1" by simp
    from False have "(\<Sum>k<channels B. mixed_weight L B i j k) =
        beta L * (\<Sum>k<channels B. of_bool (int k = n_label_at L B i j)) +
        (1 - beta L) * (\<Sum>k<channels B. prob_at L B i k j)"
      by (simp add: mixed_weight_def sum.distrib sum_distrib_left)
    then show ?thesis by (simp only: n p) simp
  qed
  then show ?thesis unfolding wf_dim [OF assms(1)] by (simp only: forward_c_wf simp_thms)
qed

text \<open>The theorem in soft mode at the first example and in hard mode at the second.\<close>

theorem C8_weights_sum_to_one_witness:
  "wf L_ex B_ex \<and> 0 \<le> n_label_at L_ex B_ex 0 0 \<and> n_label_at L_ex B_ex 0 0 < int (channels B_ex) \<and>
   \<not> is_hard_mode L_ex \<and> (\<Sum>k<channels B_ex. prob_at L_ex B_ex 0 k 0) = 1 \<and>
   (\<Sum>k<channels B_ex. mixed_weight L_ex B_ex 0 0 k) = 1 \<and>
   wf L_dbl B_dbl \<and> is_hard_mode L_dbl \<and> n_label_at L_dbl B_dbl 0 0 = 0 \<and>
   p_label_at L_dbl B_dbl 0 0 = 1 \<and> (\<Sum>k<channels B_dbl. mixed_weight L_dbl B_dbl 0 0 k) = 1"
proof -
  have n: "n_label_at L_ex B_ex 0 0 = 1" "n_label_at L_dbl B_dbl 0 0 = 0"
    "p_label_at L_dbl B_dbl 0 0 = 1"
    by (simp_all add: n_label_at_def p_label_at_def static_cast_int_def L_ex_def B_ex_def
        L_dbl_def B_dbl_def)
  have c: "channels B_ex = 2" "channels B_dbl = 2" by (simp_all add: B_ex_def B_dbl_def)
  have h: "\<not> is_hard_mode L_ex" "is_hard_mode L_dbl" by (simp_all add: L_ex_def L_dbl_def)
  have s: "(\<Sum>k<channels B_ex. prob_at L_ex B_ex 0 k 0) = 1"
    by (simp add: prob_at_def index3_def L_ex_def B_ex_def numeral_2_eq_2)
  from C8_weights_sum_to_one [OF wf_ex, of 0 0] C8_weights_sum_to_one [OF wf_dbl, of 0 0]
    n c h s wf_ex wf_dbl
  show ?thesis by simp
qed

text \<open>
  Claim C9. When \<open>normalize\<close> is set and every position is ignored, the number of valid
  positions is zero and \<open>Forward_cpu\<close> returns the result of the division by zero, a NaN or
  an infinity, as the loss.
\<close>

theorem C9_degenerate_normalization:
  assumes "0 < outer_num L" and "normalize L"
    and "\<forall>i<outer_num L. \<forall>j<inner_num L. ignored_at L B i j"
  shows "valid_count L B = 0 \<and>
         Forward_cpu L B top_size =
           Inr (NonFinite, if top_size = 2 then Some (prob_data B) else None)"
proof -
  from assms(3) have v: "valid_count L B = 0" by (simp add: valid_count_def)
  obtain loss where "forward_loops L B (length (prob_data B) div outer_num L) = (loss, valid_count L B)"
    using forward_loops_count [of L B "length (prob_data B) div outer_num L"]
    by (cases "forward_loops L B (length (prob_data B) div outer_num L)") simp
  with assms(1,2) v show ?thesis
    by (simp add: Forward_cpu_def dt_div_def)
qed

text \<open>The theorem at the third example.\<close>

theorem C9_degenerate_normalization_witness:
  "0 < outer_num L_deg \<and> normalize L_deg \<and> outer_num L_deg = 1 \<and> inner_num L_deg = 1 \<and>
   ignored_at L_deg B_deg 0 0 \<and> valid_count L_deg B_deg = 0 \<and>
   Forward_cpu L_deg B_deg 1 = Inr (NonFinite, None)"
proof -
  have a: "0 < outer_num L_deg" "normalize L_deg" by (simp_all add: L_deg_def)
  have s: "outer_num L_deg = 1" "inner_num L_deg = 1" by (simp_all add: L_deg_def)
  have g: "ignored_at L_deg B_deg 0 0"
    by (simp add: ignored_at_def n_label_at_def static_cast_int_def L_deg_def B_deg_def)
  have b: "\<forall>i<outer_num L_deg. \<forall>j<inner_num L_deg. ignored_at L_deg B_deg i j"
    using g by (simp add: s)
  from C9_degenerate_normalization [OF a b, of 1] a s g show ?thesis by simp
qed

text \<open>
  Claim C10. With \<open>beta = 1\<close> the hard and the soft mode agree: \<open>Forward_cpu\<close> returns the
  same result and \<open>Backward_cpu\<close> the same gradient buffer in both modes, on every input.
\<close>

theorem C10_beta_one_modes_agree:
  assumes "beta L = 1"
  shows "Forward_cpu (L\<lparr>is_hard_mode := True\<rparr>) B top_size =
           Forward_cpu (L\<lparr>is_hard_mode := False\<rparr>) B top_size \<and>
         Backward_cpu (L\<lparr>is_hard_mode := True\<rparr>) B loss_weight propagate_down bottom_diff =
           Backward_cpu (L\<lparr>is_hard_mode := False\<rparr>) B loss_weight propagate_down bottom_diff"
proof -
  have fk: "forward_k (L\<lparr>is_hard_mode := True\<rparr>) B d n p i j =
            forward_k (L\<lparr>is_hard_mode := False\<rparr>) B d n p i j" for d n p i j
    by (simp add: fun_eq_iff forward_k_def beta_one_c [OF assms])
  have fj: "forward_j (L\<lparr>is_hard_mode := True\<rparr>) B d i =
            forward_j (L\<lparr>is_hard_mode := False\<rparr>) B d i" for d i
    by (simp add: fun_eq_iff forward_j_def fk Let_def)
  have fi: "forward_i (L\<lparr>is_hard_mode := True\<rparr>) B d =
            forward_i (L\<lparr>is_hard_mode := False\<rparr>) B d" for d
    by (simp add: fun_eq_iff forward_i_def fj)
  have fl: "forward_loops (L\<lparr>is_hard_mode := True\<rparr>) B d =
            forward_loops (L\<lparr>is_hard_mode := False\<rparr>) B d" for d
    by (simp add: forward_loops_def fi)
  have bk: "backward_k (L\<lparr>is_hard_mode := True\<rparr>) B d n p i j =
            backward_k (L\<lparr>is_hard_mode := False\<rparr>) B d n p i j" for d n p i j
    by (simp add: fun_eq_iff backward_k_def beta_one_c [OF assms])
  have bz: "backward_zero (L\<lparr>is_hard_mode := True\<rparr>) d i j =
            backward_zero (L\<lparr>is_hard_mode := False\<rparr>) d i j" for d i j
    by (simp add: fun_eq_iff backward_zero_def)
  have bj: "backward_j (L\<lparr>is_hard_mode := True\<rparr>) B d i =
            backward_j (L\<lparr>is_hard_mode := False\<rparr>) B d i" for d i
    by (simp add: fun_eq_iff backward_j_def bk bz Let_def)
  have bi: "backward_i (L\<lparr>is_hard_mode := True\<rparr>) B d =
            backward_i (L\<lparr>is_hard_mode := False\<rparr>) B d" for d
    by (simp add: fun_eq_iff backward_i_def bj)
  have bl: "backward_loops (L\<lparr>is_hard_mode := True\<rparr>) B d =
            backward_loops (L\<lparr>is_hard_mode := False\<rparr>) B d" for d
    by (simp add: fun_eq_iff backward_loops_def bi)
  have "Forward_cpu (L\<lparr>is_hard_mode := True\<rparr>) B top_size =
           Forward_cpu (L\<lparr>is_hard_mode := False\<rparr>) B top_size"
    by (simp add: Forward_cpu_def fl Let_def split: prod.split cong: if_cong)
  moreover have
    "Backward_cpu (L\<lparr>is_hard_mode := True\<rparr>) B loss_weight propagate_down bottom_diff =
     Backward_cpu (L\<lparr>is_hard_mode := False\<rparr>) B loss_weight propagate_down bottom_diff"
    by (simp add: Backward_cpu_def bl Let_def split: prod.split cong: if_cong)
  ultimately show ?thesis by (rule conjI)
qed

text \<open>The theorem at the second example.\<close>

theorem C10_beta_one_modes_agree_witness:
  "beta L_dbl = 1 \<and>
   Forward_cpu (L_dbl\<lparr>is_hard_mode := True\<rparr>) B_dbl 1 =
     Forward_cpu (L_dbl\<lparr>is_hard_mode := False\<rparr>) B_dbl 1 \<and>
   Backward_cpu (L_dbl\<lparr>is_hard_mode := True\<rparr>) B_dbl 1 [True, False] [Fin 0, Fin 0] =
     Backward_cpu (L_dbl\<lparr>is_hard_mode := False\<rparr>) B_dbl 1 [True, False] [Fin 0, Fin 0]"
proof -
  have b: "beta L_dbl = 1" by (simp add: L_dbl_def)
  from C10_beta_one_modes_agree [OF b, of B_dbl 1 1 "[True, False]" "[Fin 0, Fin 0]"] b
  show ?thesis by blast
qed

end
